theory Spec2Isabelle
  imports Main
begin

section \<open>JavaScript values\<close>

text \<open>
  The exported functions of \<^verbatim>\<open>services/sanitizer.js\<close> and \<^verbatim>\<open>services/compliance.js\<close>
  are called with a string, with \<^verbatim>\<open>null\<close> or with \<^verbatim>\<open>undefined\<close>; booleans stand for the
  primitive values that are neither. A string is a list of code units; the
  model covers the code units below 256 (HOL's \<^typ>\<open>char\<close>).
\<close>

datatype jsval = JNull | JUndefined | JBool bool | JStr string

datatype error = TypeError

fun truthy :: "jsval \<Rightarrow> bool" where
  "truthy JNull = False"
| "truthy JUndefined = False"
| "truthy (JBool b) = b"
| "truthy (JStr s) = (s \<noteq> [])"

fun typeof :: "jsval \<Rightarrow> string" where
  "typeof JNull = ''object''"
| "typeof JUndefined = ''undefined''"
| "typeof (JBool b) = ''boolean''"
| "typeof (JStr s) = ''string''"

text \<open>The conversion a template literal applies to an interpolated value.\<close>

fun to_string :: "jsval \<Rightarrow> string" where
  "to_string JNull = ''null''"
| "to_string JUndefined = ''undefined''"
| "to_string (JBool b) = (if b then ''true'' else ''false'')"
| "to_string (JStr s) = s"

text \<open>\<^verbatim>\<open>v || ''\<close>\<close>

definition or_empty :: "jsval \<Rightarrow> jsval" where
  "or_empty v = (if truthy v then v else JStr [])"

section \<open>Characters and string methods\<close>

definition is_word_char :: "char \<Rightarrow> bool" where
  "is_word_char c =
     ((97 \<le> (of_char c :: nat) \<and> (of_char c :: nat) \<le> 122) \<or>
      (65 \<le> (of_char c :: nat) \<and> (of_char c :: nat) \<le> 90) \<or>
      (48 \<le> (of_char c :: nat) \<and> (of_char c :: nat) \<le> 57) \<or>
      (of_char c :: nat) = 95)"

text \<open>White space and line terminators, as \<^verbatim>\<open>\s\<close> and \<^verbatim>\<open>trim\<close> read them:
  TAB, LF, VT, FF, CR, SP and NBSP.\<close>

definition is_space :: "char \<Rightarrow> bool" where
  "is_space c =
     ((9 \<le> (of_char c :: nat) \<and> (of_char c :: nat) \<le> 13) \<or>
      (of_char c :: nat) = 32 \<or> (of_char c :: nat) = 160)"

definition is_line_terminator :: "char \<Rightarrow> bool" where
  "is_line_terminator c = ((of_char c :: nat) = 10 \<or> (of_char c :: nat) = 13)"

definition is_upper :: "char \<Rightarrow> bool" where
  "is_upper c =
     ((65 \<le> (of_char c :: nat) \<and> (of_char c :: nat) \<le> 90) \<or>
      (192 \<le> (of_char c :: nat) \<and> (of_char c :: nat) \<le> 222 \<and> (of_char c :: nat) \<noteq> 215))"

definition is_lower :: "char \<Rightarrow> bool" where
  "is_lower c =
     ((97 \<le> (of_char c :: nat) \<and> (of_char c :: nat) \<le> 122) \<or>
      (224 \<le> (of_char c :: nat) \<and> (of_char c :: nat) \<le> 254 \<and> (of_char c :: nat) \<noteq> 247))"

text \<open>An upper-case letter and its lower-case form differ by 32, which is bit 5 of the
  code unit: clear in the upper-case ranges, set in the lower-case ones.\<close>

definition toLowerCase_char :: "char \<Rightarrow> char" where
  "toLowerCase_char c =
     (if is_upper c
      then (case c of Char b0 b1 b2 b3 b4 b5 b6 b7 \<Rightarrow> Char b0 b1 b2 b3 b4 True b6 b7)
      else c)"

definition toUpperCase_char :: "char \<Rightarrow> char" where
  "toUpperCase_char c =
     (if is_lower c
      then (case c of Char b0 b1 b2 b3 b4 b5 b6 b7 \<Rightarrow> Char b0 b1 b2 b3 b4 False b6 b7)
      else c)"

definition toLowerCase :: "string \<Rightarrow> string" where
  "toLowerCase s = map toLowerCase_char s"

definition trim :: "string \<Rightarrow> string" where
  "trim s = rev (dropWhile is_space (rev (dropWhile is_space s)))"

text \<open>\<^verbatim>\<open>s.split(sep)\<close> for a separator of one character.\<close>

fun split_on :: "char \<Rightarrow> string \<Rightarrow> string list" where
  "split_on sep [] = [[]]"
| "split_on sep (c # cs) =
     (if c = sep then [] # split_on sep cs
      else (case split_on sep cs of
              [] \<Rightarrow> [[c]]
            | x # xs \<Rightarrow> (c # x) # xs))"

text \<open>\<^verbatim>\<open>s.indexOf(c)\<close>; \<open>None\<close> is the result -1.\<close>

fun indexOf :: "string \<Rightarrow> char \<Rightarrow> nat option" where
  "indexOf [] d = None"
| "indexOf (c # cs) d =
     (if c = d then Some 0
      else (case indexOf cs d of None \<Rightarrow> None | Some i \<Rightarrow> Some (Suc i)))"

fun startsWith :: "string \<Rightarrow> string \<Rightarrow> bool" where
  "startsWith s [] = True"
| "startsWith [] (d # ds) = False"
| "startsWith (c # cs) (d # ds) = (c = d \<and> startsWith cs ds)"

fun str_includes :: "string \<Rightarrow> string \<Rightarrow> bool" where
  "str_includes [] sub = startsWith [] sub"
| "str_includes (c # cs) sub = (startsWith (c # cs) sub \<or> str_includes cs sub)"

fun join :: "string \<Rightarrow> string list \<Rightarrow> string" where
  "join sep [] = []"
| "join sep [x] = x"
| "join sep (x # y # ys) = x @ sep @ join sep (y # ys)"

section \<open>Regular expressions\<close>

text \<open>
  The patterns of the two services use literal characters, character classes, the dot,
  \<^verbatim>\<open>\b\<close>, capture groups, one back reference, and quantifiers (greedy or lazy) on a
  single character or class only. A pattern is the list of its nodes in source order; a
  capture group is the pair of its two parentheses.
\<close>

datatype citem = CChr char | CRange char char | CWord | CSpace | CNonSpace

datatype atom = Lit char | AnyChar | OneOf "citem list" | NoneOf "citem list"

datatype node =
    One atom
  | Rep atom nat "nat option" bool
  | WordB
  | GOpen nat
  | GClose nat
  | BackRef nat

text \<open>The nodes, and the flags \<^verbatim>\<open>i\<close> and \<^verbatim>\<open>g\<close>.\<close>

datatype regexp = RegExp "node list" bool bool

type_synonym captures = "(nat \<times> string) list"

fun citem_has :: "citem \<Rightarrow> char \<Rightarrow> bool" where
  "citem_has (CChr d) c = (c = d)"
| "citem_has (CRange lo hi) c =
     ((of_char lo :: nat) \<le> of_char c \<and> (of_char c :: nat) \<le> of_char hi)"
| "citem_has CWord c = is_word_char c"
| "citem_has CSpace c = is_space c"
| "citem_has CNonSpace c = (\<not> is_space c)"

text \<open>With the flag \<^verbatim>\<open>i\<close> a character is in a class when a member of the class has the
  same canonical (upper-case) form, that is when the character, its upper-case or its
  lower-case form is a member.\<close>

definition class_has :: "bool \<Rightarrow> citem list \<Rightarrow> char \<Rightarrow> bool" where
  "class_has ic items c =
     list_ex (\<lambda>i. citem_has i c \<or>
                  (ic \<and> (citem_has i (toUpperCase_char c) \<or> citem_has i (toLowerCase_char c))))
       items"

fun atom_match :: "bool \<Rightarrow> atom \<Rightarrow> char \<Rightarrow> bool" where
  "atom_match ic (Lit d) c = (if ic then toUpperCase_char c = toUpperCase_char d else c = d)"
| "atom_match ic AnyChar c = (\<not> is_line_terminator c)"
| "atom_match ic (OneOf items) c = class_has ic items c"
| "atom_match ic (NoneOf items) c = (\<not> class_has ic items c)"

fun is_word_opt :: "char option \<Rightarrow> bool" where
  "is_word_opt None = False"
| "is_word_opt (Some c) = is_word_char c"

fun head_opt :: "string \<Rightarrow> char option" where
  "head_opt [] = None"
| "head_opt (c # cs) = Some c"

fun last_opt :: "char option \<Rightarrow> string \<Rightarrow> char option" where
  "last_opt p [] = p"
| "last_opt p (c # cs) = last_opt (Some c) cs"

fun backref_match :: "bool \<Rightarrow> string \<Rightarrow> string \<Rightarrow> string option" where
  "backref_match ic [] s = Some s"
| "backref_match ic (d # ds) [] = None"
| "backref_match ic (d # ds) (c # cs) =
     (if atom_match ic (Lit d) c then backref_match ic ds cs else None)"

text \<open>
  The backtracking matcher at one position: \<open>p\<close> is the character before the position,
  \<open>s\<close> the input from the position on, \<open>opens\<close> where each open group started, and the
  result the captures with the input left after the match. A greedy quantifier first
  takes one more character and falls back to the rest of the pattern; a lazy one tries
  the rest of the pattern first.
\<close>

fun match_here :: "bool \<Rightarrow> node list \<Rightarrow> char option \<Rightarrow> string \<Rightarrow> captures \<Rightarrow> captures
                     \<Rightarrow> (captures \<times> string) option" where
  "match_here ic [] p s opens caps = Some (caps, s)"
| "match_here ic (One a # ns) p [] opens caps = None"
| "match_here ic (One a # ns) p (c # cs) opens caps =
     (if atom_match ic a c then match_here ic ns (Some c) cs opens caps else None)"
| "match_here ic (Rep a lo hi g # ns) p [] opens caps =
     (if lo = 0 then match_here ic ns p [] opens caps else None)"
| "match_here ic (Rep a lo hi g # ns) p (c # cs) opens caps =
     (if hi \<noteq> Some 0 \<and> atom_match ic a c then
        (if lo = 0 then
           (if g then
              (case match_here ic (Rep a 0 (map_option (\<lambda>h. h - 1) hi) g # ns) (Some c) cs
                      opens caps of
                 Some r \<Rightarrow> Some r
               | None \<Rightarrow> match_here ic ns p (c # cs) opens caps)
            else
              (case match_here ic ns p (c # cs) opens caps of
                 Some r \<Rightarrow> Some r
               | None \<Rightarrow>
                   match_here ic (Rep a 0 (map_option (\<lambda>h. h - 1) hi) g # ns) (Some c) cs
                     opens caps))
         else match_here ic (Rep a (lo - 1) (map_option (\<lambda>h. h - 1) hi) g # ns) (Some c) cs
                opens caps)
      else if lo = 0 then match_here ic ns p (c # cs) opens caps else None)"
| "match_here ic (WordB # ns) p s opens caps =
     (if is_word_opt p \<noteq> is_word_opt (head_opt s)
      then match_here ic ns p s opens caps else None)"
| "match_here ic (GOpen n # ns) p s opens caps = match_here ic ns p s ((n, s) # opens) caps"
| "match_here ic (GClose n # ns) p s opens caps =
     (case map_of opens n of
        None \<Rightarrow> match_here ic ns p s opens caps
      | Some s0 \<Rightarrow> match_here ic ns p s opens ((n, take (length s0 - length s) s0) # caps))"
| "match_here ic (BackRef n # ns) p s opens caps =
     (case map_of caps n of
        None \<Rightarrow> match_here ic ns p s opens caps
      | Some t \<Rightarrow>
          (case backref_match ic t s of
             None \<Rightarrow> None
           | Some r \<Rightarrow> match_here ic ns (last_opt p t) r opens caps))"

text \<open>The first position from which the pattern matches: the text skipped, the text
  matched, the captures and the text left.\<close>

fun search :: "bool \<Rightarrow> node list \<Rightarrow> char option \<Rightarrow> string
                 \<Rightarrow> (string \<times> string \<times> captures \<times> string) option" where
  "search ic ns p [] =
     (case match_here ic ns p [] [] [] of
        Some (caps, r) \<Rightarrow> Some ([], [], caps, r)
      | None \<Rightarrow> None)"
| "search ic ns p (c # cs) =
     (case match_here ic ns p (c # cs) [] [] of
        Some (caps, r) \<Rightarrow> Some ([], take (length (c # cs) - length r) (c # cs), caps, r)
      | None \<Rightarrow>
          (case search ic ns (Some c) cs of
             None \<Rightarrow> None
           | Some (pre, rest) \<Rightarrow> Some (c # pre, rest)))"

text \<open>\<^verbatim>\<open>pattern.test(s)\<close> and \<^verbatim>\<open>s.match(pattern)\<close>, which the services call on patterns
  without the flag \<^verbatim>\<open>g\<close> only, so that both search from the start of \<open>s\<close>.\<close>

fun regex_test :: "regexp \<Rightarrow> string \<Rightarrow> bool" where
  "regex_test (RegExp ns ic g) s = (search ic ns None s \<noteq> None)"

fun str_match :: "string \<Rightarrow> regexp \<Rightarrow> (string \<times> captures) option" where
  "str_match s (RegExp ns ic g) =
     (case search ic ns None s of
        None \<Rightarrow> None
      | Some (pre, matched, caps, rest) \<Rightarrow> Some (matched, caps))"

fun group :: "captures \<Rightarrow> nat \<Rightarrow> string" where
  "group caps n = (case map_of caps n of None \<Rightarrow> [] | Some t \<Rightarrow> t)"

text \<open>\<^verbatim>\<open>s.replace(pattern, f)\<close> with the flag \<^verbatim>\<open>g\<close>: every match from left to right, the
  search resuming where the match ended, or one character further after an empty match.\<close>

function replace_all :: "bool \<Rightarrow> node list \<Rightarrow> (string \<Rightarrow> captures \<Rightarrow> string)
                          \<Rightarrow> char option \<Rightarrow> string \<Rightarrow> string" where
  "replace_all ic ns f p [] =
     (case match_here ic ns p [] [] [] of
        Some (caps, r) \<Rightarrow> f [] caps
      | None \<Rightarrow> [])"
| "replace_all ic ns f p (c # cs) =
     (case match_here ic ns p (c # cs) [] [] of
        Some (caps, r) \<Rightarrow>
          (if length r < length (c # cs)
           then f (take (length (c # cs) - length r) (c # cs)) caps
                  @ replace_all ic ns f
                      (last_opt p (take (length (c # cs) - length r) (c # cs))) r
           else f [] caps @ c # replace_all ic ns f (Some c) cs)
      | None \<Rightarrow> c # replace_all ic ns f (Some c) cs)"
  by pat_completeness auto
termination
  by (relation "measure (\<lambda>(ic, ns, f, p, s). length s)") auto

fun str_replace :: "string \<Rightarrow> regexp \<Rightarrow> (string \<Rightarrow> captures \<Rightarrow> string) \<Rightarrow> string" where
  "str_replace s (RegExp ns ic g) f =
     (if g then replace_all ic ns f None s
      else (case search ic ns None s of
              None \<Rightarrow> s
            | Some (pre, matched, caps, rest) \<Rightarrow> pre @ f matched caps @ rest))"

text \<open>Notation of the patterns: a literal text, \<^verbatim>\<open>*\<close>, \<^verbatim>\<open>+\<close>, \<^verbatim>\<open>?\<close>, \<^verbatim>\<open>*?\<close>, \<^verbatim>\<open>\w\<close>,
  \<^verbatim>\<open>\s\<close> and \<^verbatim>\<open>[\s\S]\<close>.\<close>

definition lits :: "string \<Rightarrow> node list" where
  "lits s = map (\<lambda>c. One (Lit c)) s"

definition rstar :: "atom \<Rightarrow> node" where
  "rstar a = Rep a 0 None True"

definition rplus :: "atom \<Rightarrow> node" where
  "rplus a = Rep a 1 None True"

definition ropt :: "atom \<Rightarrow> node" where
  "ropt a = Rep a 0 (Some 1) True"

definition rlazy :: "atom \<Rightarrow> node" where
  "rlazy a = Rep a 0 None False"

definition word_class :: atom where
  "word_class = OneOf [CWord]"

definition space_class :: atom where
  "space_class = OneOf [CSpace]"

definition any_class :: atom where
  "any_class = OneOf [CSpace, CNonSpace]"

section \<open>The sanitizer (services/sanitizer.js)\<close>

definition ALLOWED_TAGS :: "string set" where
  "ALLOWED_TAGS = {''p'', ''strong'', ''em'', ''ul'', ''li'', ''br'', ''span''}"

definition ALLOWED_STYLE_PROPERTIES :: "string set" where
  "ALLOWED_STYLE_PROPERTIES = {''font-size'', ''font-style''}"

definition DANGEROUS_PATTERNS :: "regexp list" where
  "DANGEROUS_PATTERNS =
    [RegExp (lits ''javascript:'') True True,
     RegExp (lits ''vbscript:'') True True,
     RegExp (lits ''data:'') True True,
     RegExp (lits ''on'' @ [rplus word_class, rstar space_class] @ lits ''='') True True,
     RegExp (lits ''<script'' @ [rlazy any_class] @ lits ''</script>'') True True,
     RegExp (lits ''<script'' @ [rlazy any_class] @ lits ''>'') True True,
     RegExp (lits ''</script>'') True True,
     RegExp (lits ''<iframe'' @ [rlazy any_class] @ lits ''>'') True True,
     RegExp (lits ''<object'' @ [rlazy any_class] @ lits ''>'') True True,
     RegExp (lits ''<embed'' @ [rlazy any_class] @ lits ''>'') True True,
     RegExp (lits ''<link'' @ [rlazy any_class] @ lits ''>'') True True,
     RegExp (lits ''<meta'' @ [rlazy any_class] @ lits ''>'') True True,
     RegExp (lits ''<style'' @ [rlazy any_class] @ lits ''</style>'') True True,
     RegExp (lits ''<style'' @ [rlazy any_class] @ lits ''>'') True True]"

text \<open>One turn of the loop of \<^verbatim>\<open>sanitizeStyle\<close> over the parts of the style value.\<close>

definition style_part :: "string \<Rightarrow> string list \<Rightarrow> string list" where
  "style_part part sanitizedParts =
     (let trimmed = trim part in
      if trimmed = [] then sanitizedParts
      else (case indexOf trimmed CHR '':'' of
              None \<Rightarrow> sanitizedParts
            | Some colonIndex \<Rightarrow>
                (let property = toLowerCase (trim (take colonIndex trimmed));
                     val = trim (drop (colonIndex + 1) trimmed)
                 in if property \<in> ALLOWED_STYLE_PROPERTIES
                    then (if \<not> str_includes val ''expression'' \<and>
                             \<not> str_includes val ''javascript'' \<and>
                             \<not> str_includes val ''url(''
                          then sanitizedParts @ [property @ '': '' @ val]
                          else sanitizedParts)
                    else sanitizedParts)))"

definition sanitizeStyle :: "string \<Rightarrow> string" where
  "sanitizeStyle styleValue =
     (if styleValue = [] then []
      else join ''; '' (fold style_part (split_on CHR '';'' styleValue) []))"

text \<open>\<^verbatim>\<open>/style\s*=\s*["']([^"']*)["']/i\<close>\<close>

definition style_pattern :: regexp where
  "style_pattern =
     RegExp (lits ''style'' @ [rstar space_class] @ lits ''='' @ [rstar space_class,
             One (OneOf [CChr (CHR 0x22), CChr (CHR 0x27)]),
             GOpen 1, rstar (NoneOf [CChr (CHR 0x22), CChr (CHR 0x27)]), GClose 1,
             One (OneOf [CChr (CHR 0x22), CChr (CHR 0x27)])])
       True False"

definition sanitizeAttributes :: "string \<Rightarrow> string" where
  "sanitizeAttributes attributeString =
     (if attributeString = [] then []
      else (case str_match attributeString style_pattern of
              None \<Rightarrow> []
            | Some (matched, caps) \<Rightarrow>
                (let sanitizedStyle = sanitizeStyle (group caps 1)
                 in if sanitizedStyle \<noteq> []
                    then '' style='' @ [CHR 0x22] @ sanitizedStyle @ [CHR 0x22]
                    else [])))"

text \<open>\<^verbatim>\<open>/<\/?([a-zA-Z][a-zA-Z0-9]*)\s*([^>]*)>/gi\<close>\<close>

definition tag_pattern :: regexp where
  "tag_pattern =
     RegExp (lits ''<'' @ [ropt (Lit CHR ''/''),
             GOpen 1, One (OneOf [CRange CHR ''a'' CHR ''z'', CRange CHR ''A'' CHR ''Z'']),
             rstar (OneOf [CRange CHR ''a'' CHR ''z'', CRange CHR ''A'' CHR ''Z'',
                           CRange CHR ''0'' CHR ''9'']), GClose 1,
             rstar space_class,
             GOpen 2, rstar (NoneOf [CChr CHR ''>'']), GClose 2] @ lits ''>'')
       True True"

text \<open>The replacement function of the second pass.\<close>

definition rewrite_tag :: "string \<Rightarrow> captures \<Rightarrow> string" where
  "rewrite_tag matched caps =
     (let tagName = group caps 1;
          attributes = group caps 2;
          lowerTag = toLowerCase tagName
      in if lowerTag \<notin> ALLOWED_TAGS then []
         else if startsWith matched ''</'' then ''</'' @ lowerTag @ ''>''
         else if lowerTag = ''br'' then ''<br>''
         else ''<'' @ lowerTag @ sanitizeAttributes attributes @ ''>'')"

text \<open>\<^verbatim>\<open>/<(\w+)[^>]*>\s*<\/\1>/gi\<close>\<close>

definition empty_tag_pattern :: regexp where
  "empty_tag_pattern =
     RegExp (lits ''<'' @ [GOpen 1, rplus word_class, GClose 1, rstar (NoneOf [CChr CHR ''>''])]
             @ lits ''>'' @ [rstar space_class] @ lits ''</'' @ [BackRef 1] @ lits ''>'')
       True True"

definition keep_empty_paragraph :: "string \<Rightarrow> captures \<Rightarrow> string" where
  "keep_empty_paragraph matched caps =
     (if toLowerCase (group caps 1) = ''p'' then matched else [])"

definition remove :: "string \<Rightarrow> captures \<Rightarrow> string" where
  "remove matched caps = []"

definition first_pass :: "string \<Rightarrow> string" where
  "first_pass html =
     fold (\<lambda>pattern sanitized. str_replace sanitized pattern remove) DANGEROUS_PATTERNS html"

definition second_pass :: "string \<Rightarrow> string" where
  "second_pass sanitized = str_replace sanitized tag_pattern rewrite_tag"

definition third_pass :: "string \<Rightarrow> string" where
  "third_pass sanitized =
     str_replace
       (str_replace sanitized (RegExp (lits ''javascript:'') True True) remove)
       (RegExp (lits ''on'' @ [rplus word_class] @ lits ''='') True True) remove"

definition empty_tag_cleanup :: "string \<Rightarrow> string" where
  "empty_tag_cleanup sanitized = str_replace sanitized empty_tag_pattern keep_empty_paragraph"

text \<open>A method call on a value that is not a string (\<^verbatim>\<open>html.replace\<close> on \<^verbatim>\<open>true\<close>)
  raises a TypeError; the guard of \<^verbatim>\<open>sanitizeHTML\<close> returns before any such call.\<close>

fun sanitizeHTML :: "jsval \<Rightarrow> error + string" where
  "sanitizeHTML html =
     (if \<not> truthy html \<or> typeof html \<noteq> ''string'' then Inr []
      else (case html of
              JStr sanitized \<Rightarrow>
                Inr (trim (empty_tag_cleanup (third_pass (second_pass (first_pass sanitized)))))
            | _ \<Rightarrow> Inl TypeError))"

section \<open>Compliance and disclaimers (services/compliance.js)\<close>

definition word_pattern :: "node list \<Rightarrow> regexp" where
  "word_pattern ns = RegExp ([WordB] @ ns @ [WordB]) True False"

definition PROHIBITED_KEYWORDS :: "(string \<times> regexp) list" where
  "PROHIBITED_KEYWORDS =
    [(''guarantee'',
        word_pattern (lits ''guarantee'' @ [ropt (OneOf [CChr CHR ''d'', CChr CHR ''s''])])),
     (''never'', word_pattern (lits ''never'')),
     (''always'', word_pattern (lits ''always'')),
     (''required by law'', word_pattern (lits ''required by law'')),
     (''mandatory'', word_pattern (lits ''mandatory'')),
     (''best'', word_pattern (lits ''best'')),
     (''ultimate'', word_pattern (lits ''ultimate'')),
     (''act now'', word_pattern (lits ''act now'')),
     (''limited time'', word_pattern (lits ''limited time'')),
     (''don'' @ [CHR 0x27] @ ''t miss'',
        word_pattern (lits ''don'' @ [ropt (Lit (CHR 0x27))] @ lits ''t miss''))]"

definition MANIPULATIVE_PATTERNS :: "(regexp \<times> string) list" where
  "MANIPULATIVE_PATTERNS =
    [(RegExp [Rep (Lit CHR ''!'') 2 None True] False False,
        ''Multiple exclamation points may appear unprofessional''),
     (word_pattern (lits ''will save you thousands''), ''Unverified savings claims''),
     (word_pattern (lits ''bankrupt''), ''Fear-based language detected''),
     (word_pattern (lits ''devastating''), ''Fear-based language detected''),
     (word_pattern (lits ''you need this''), ''Pressure tactics detected''),
     (word_pattern (lits ''everyone who says no regrets''), ''Pressure tactics detected'')]"

definition STANDARD_DISCLAIMER :: string where
  "STANDARD_DISCLAIMER = ''This coverage has limitations and exclusions. Please review the full contract terms for complete details on covered components, service requirements, and exclusions.''"

definition DISCLAIMER_INDICATORS :: "regexp list" where
  "DISCLAIMER_INDICATORS =
    [RegExp (lits ''limitations and exclusions'') True False,
     RegExp (lits ''please review'' @ [rstar AnyChar] @ lits ''contract'') True False,
     RegExp (lits ''see contract for'' @ [rstar AnyChar] @ lits ''details'') True False,
     RegExp (lits ''terms and conditions apply'') True False,
     RegExp (lits ''coverage'' @ [rstar AnyChar] @ lits ''limitations'') True False,
     RegExp (lits ''exclusions apply'') True False]"

text \<open>\<^verbatim>\<open>/<[^>]*>/g\<close>, and the replacement of each match by one space.\<close>

definition any_tag :: regexp where
  "any_tag = RegExp (lits ''<'' @ [rstar (NoneOf [CChr CHR ''>''])] @ lits ''>'') False True"

definition blank :: "string \<Rightarrow> captures \<Rightarrow> string" where
  "blank matched caps = '' ''"

record ComplianceResult =
  hasIssues :: bool
  warnings :: "string list"

definition combinedText :: "jsval \<Rightarrow> jsval \<Rightarrow> string" where
  "combinedText shortDescription longDescription =
     to_string (or_empty shortDescription) @ '' '' @ to_string (or_empty longDescription)"

definition plainText :: "jsval \<Rightarrow> jsval \<Rightarrow> string" where
  "plainText shortDescription longDescription =
     str_replace (combinedText shortDescription longDescription) any_tag blank"

text \<open>One turn of each of the two loops of \<^verbatim>\<open>checkCompliance\<close>.\<close>

definition keyword_step :: "string \<Rightarrow> string \<times> regexp \<Rightarrow> string list \<Rightarrow> string list" where
  "keyword_step text rule ws =
     (case rule of (keyword, pattern) \<Rightarrow>
        if regex_test pattern text
        then ws @ [''Contains '' @ [CHR 0x22] @ keyword @ [CHR 0x22]
                     @ '' - this language may require legal review'']
        else ws)"

definition manipulative_step :: "string \<Rightarrow> regexp \<times> string \<Rightarrow> string list \<Rightarrow> string list" where
  "manipulative_step text rule ws =
     (case rule of (pattern, message) \<Rightarrow>
        if regex_test pattern text
        then (if message \<notin> set ws then ws @ [message] else ws)
        else ws)"

definition checkCompliance :: "jsval \<Rightarrow> jsval \<Rightarrow> ComplianceResult" where
  "checkCompliance shortDescription longDescription =
     (let text = plainText shortDescription longDescription;
          ws = fold (manipulative_step text) MANIPULATIVE_PATTERNS
                 (fold (keyword_step text) PROHIBITED_KEYWORDS [])
      in \<lparr>hasIssues = (length ws > 0), warnings = ws\<rparr>)"

text \<open>\<^verbatim>\<open>text.replace\<close> is a method call of the same kind, after the test \<^verbatim>\<open>!text\<close> only.\<close>

fun hasDisclaimer :: "jsval \<Rightarrow> error + bool" where
  "hasDisclaimer text =
     (if \<not> truthy text then Inr False
      else (case text of
              JStr t \<Rightarrow>
                Inr (list_ex (\<lambda>pattern. regex_test pattern (toLowerCase (str_replace t any_tag blank)))
                       DISCLAIMER_INDICATORS)
            | _ \<Rightarrow> Inl TypeError))"

definition disclaimerHTML :: string where
  "disclaimerHTML =
     ''<p><em style='' @ [CHR 0x22] @ ''font-size: smaller'' @ [CHR 0x22] @ ''>''
       @ STANDARD_DISCLAIMER @ ''</em></p>''"

definition ensureDisclaimer :: "jsval \<Rightarrow> error + string" where
  "ensureDisclaimer longDescription =
     (if truthy longDescription
      then (case hasDisclaimer longDescription of
              Inl e \<Rightarrow> Inl e
            | Inr found \<Rightarrow>
                if found then Inr (to_string longDescription)
                else Inr (to_string longDescription @ ''\<newline>\<newline>'' @ disclaimerHTML))
      else Inr disclaimerHTML)"

section \<open>The statements of the specification\<close>

text \<open>The inputs the specification speaks of: a string, \<^verbatim>\<open>null\<close> or \<^verbatim>\<open>undefined\<close>.\<close>

fun is_text :: "jsval \<Rightarrow> bool" where
  "is_text (JStr s) = True"
| "is_text JNull = True"
| "is_text JUndefined = True"
| "is_text (JBool b) = False"

text \<open>The style attribute as the specification describes it: the declaration a part of
  the value holds (the property lower-cased, both sides trimmed), the test a declaration
  must pass, and the text it is written back as.\<close>

definition spec_declaration :: "string \<Rightarrow> (string \<times> string) option" where
  "spec_declaration part =
     (case indexOf (trim part) CHR '':'' of
        None \<Rightarrow> None
      | Some i \<Rightarrow> Some (toLowerCase (trim (take i (trim part))), trim (drop (i + 1) (trim part))))"

definition spec_survives :: "string \<times> string \<Rightarrow> bool" where
  "spec_survives pv =
     (fst pv \<in> ALLOWED_STYLE_PROPERTIES \<and>
      \<not> str_includes (snd pv) ''expression'' \<and>
      \<not> str_includes (snd pv) ''javascript'' \<and>
      \<not> str_includes (snd pv) ''url('')"

definition spec_pair_text :: "string \<times> string \<Rightarrow> string" where
  "spec_pair_text pv = fst pv @ '': '' @ snd pv"

text \<open>The warnings as the specification lists them: one per matching keyword rule, then
  the messages of the matching pattern rules, each message once, at its first place.\<close>

definition keyword_warning :: "string \<Rightarrow> string" where
  "keyword_warning label =
     ''Contains '' @ [CHR 0x22] @ label @ [CHR 0x22] @ '' - this language may require legal review''"

fun first_occurrences :: "string list \<Rightarrow> string list \<Rightarrow> string list" where
  "first_occurrences seen [] = []"
| "first_occurrences seen (x # xs) =
     (if x \<in> set seen then first_occurrences seen xs else x # first_occurrences (x # seen) xs)"

definition spec_warnings :: "string \<Rightarrow> string list" where
  "spec_warnings text =
     map (\<lambda>rule. keyword_warning (fst rule))
       (filter (\<lambda>rule. regex_test (snd rule) text) PROHIBITED_KEYWORDS)
     @ first_occurrences []
         (map snd (filter (\<lambda>rule. regex_test (fst rule) text) MANIPULATIVE_PATTERNS))"

text \<open>The number of places of a text at which a phrase starts.\<close>

fun occurrences :: "string \<Rightarrow> string \<Rightarrow> nat" where
  "occurrences phrase [] = (if phrase = [] then 1 else 0)"
| "occurrences phrase (c # cs) =
     (if startsWith (c # cs) phrase then 1 else 0) + occurrences phrase cs"

text \<open>The nodes of \<^verbatim>\<open>/<[^>]*>/\<close>, and the removal of tag markers that \<^verbatim>\<open>checkCompliance\<close>
  and \<^verbatim>\<open>hasDisclaimer\<close> apply.\<close>

definition tag_nodes :: "node list" where
  "tag_nodes = [One (Lit CHR ''<''), Rep (NoneOf [CChr CHR ''>'']) 0 None True, One (Lit CHR ''>'')]"

definition strip :: "string \<Rightarrow> string" where
  "strip s = replace_all False tag_nodes blank None s"


section \<open>Evaluation\<close>

lemmas char_defs = is_word_char_def is_space_def is_line_terminator_def is_upper_def
  is_lower_def toLowerCase_char_def toUpperCase_char_def

lemmas pattern_defs = lits_def rstar_def rplus_def ropt_def rlazy_def word_class_def
  space_class_def any_class_def class_has_def

lemmas sanitizer_defs = ALLOWED_TAGS_def ALLOWED_STYLE_PROPERTIES_def DANGEROUS_PATTERNS_def
  style_part_def sanitizeStyle_def style_pattern_def sanitizeAttributes_def tag_pattern_def
  rewrite_tag_def empty_tag_pattern_def keep_empty_paragraph_def remove_def first_pass_def
  second_pass_def third_pass_def empty_tag_cleanup_def toLowerCase_def trim_def Let_def

section \<open>The sanitizer\<close>

text \<open>
  C1. The output of \<^verbatim>\<open>sanitizeHTML\<close> is to hold no \<^verbatim>\<open>javascript:\<close>. The first pass removes
  the innermost \<^verbatim>\<open>javascript:\<close> of the input below and the third pass the one that
  removal closes up; each runs once, and the text left by the third pass is
  \<^verbatim>\<open>javascript:\<close> again.
\<close>

theorem sanitizeHTML_keeps_javascript_scheme:
  "str_includes ''javajavajavascript:script:script:'' ''javascript:'' \<and>
   sanitizeHTML (JStr ''javajavajavascript:script:script:'') = Inr ''javascript:''"
  by (simp add: char_defs pattern_defs sanitizer_defs)

text \<open>
  C2. The output of \<^verbatim>\<open>sanitizeHTML\<close> is to hold no tag outside the allowed ones. The
  second pass deletes \<^verbatim>\<open><div>\<close>, which closes the text around it up to a \<^verbatim>\<open>script\<close>
  element that no later pass looks for.
\<close>

theorem sanitizeHTML_keeps_script_tag:
  "sanitizeHTML (JStr ''<<div>script>alert(1)<<div>/script>'') = Inr ''<script>alert(1)</script>'' \<and>
   ''script'' \<notin> ALLOWED_TAGS"
  by (simp add: char_defs pattern_defs sanitizer_defs)

text \<open>
  C3. \<^verbatim>\<open>sanitizeHTML\<close> is to leave its own output unchanged. A second run removes the
  tag that the first run put together, and the empty element that the clean-up of the
  first run left around the one it removed.
\<close>

theorem sanitizeHTML_second_run_differs:
  "sanitizeHTML (JStr ''<<div>script>'') = Inr ''<script>'' \<and>
   sanitizeHTML (JStr ''<script>'') = Inr [] \<and>
   sanitizeHTML (JStr ''<em><strong></strong></em>'') = Inr ''<em></em>'' \<and>
   sanitizeHTML (JStr ''<em></em>'') = Inr []"
  by (simp add: char_defs pattern_defs sanitizer_defs)

text \<open>The model on inputs of the repository's tests: a script element goes with its
  content, a tag that is not allowed goes and leaves its content, an allowed tag stays,
  and of a style attribute the allowed declarations stay.\<close>

lemma sanitizeHTML_tests:
  "sanitizeHTML (JStr ''<p>Safe</p><script>alert(1)</script>'') = Inr ''<p>Safe</p>''"
  "sanitizeHTML (JStr ''<div>Content in div</div>'') = Inr ''Content in div''"
  "sanitizeHTML (JStr ''Line 1<br>Line 2'') = Inr ''Line 1<br>Line 2''"
  "sanitizeHTML (JStr (''<p style='' @ [CHR 0x22] @ ''background:url(evil.js); font-size:12px''
       @ [CHR 0x22] @ ''>X</p>''))
     = Inr (''<p style='' @ [CHR 0x22] @ ''font-size: 12px'' @ [CHR 0x22] @ ''>X</p>'')"
  "sanitizeHTML (JStr (''<p onclick='' @ [CHR 0x22] @ ''alert(1)'' @ [CHR 0x22] @ ''>Click me</p>''))
     = Inr ''<p>Click me</p>''"
  by (simp_all add: char_defs pattern_defs sanitizer_defs)

declare sanitizeHTML.simps [simp del]

subsection \<open>The style attribute\<close>

lemma style_part_spec:
  "style_part part sanitizedParts =
     sanitizedParts
       @ map spec_pair_text (filter spec_survives (List.map_filter spec_declaration [part]))"
proof (cases "indexOf (trim part) CHR '':''")
  case None
  then show ?thesis
    by (simp add: style_part_def spec_declaration_def List.map_filter_simps Let_def)
next
  case (Some i)
  then have "trim part \<noteq> []"
    by (cases "trim part") simp_all
  with Some show ?thesis
    by (simp add: style_part_def spec_declaration_def List.map_filter_simps Let_def
        spec_survives_def spec_pair_text_def)
qed

lemma fold_style_part:
  "fold style_part parts sanitizedParts =
     sanitizedParts
       @ map spec_pair_text (filter spec_survives (List.map_filter spec_declaration parts))"
proof (induction parts arbitrary: sanitizedParts)
  case Nil
  then show ?case by (simp add: List.map_filter_simps)
next
  case (Cons part parts)
  have "fold style_part (part # parts) sanitizedParts
          = fold style_part parts (style_part part sanitizedParts)"
    by simp
  also have "\<dots> = style_part part sanitizedParts
        @ map spec_pair_text (filter spec_survives (List.map_filter spec_declaration parts))"
    by (rule Cons.IH)
  also have "\<dots> = sanitizedParts
        @ map spec_pair_text
            (filter spec_survives (List.map_filter spec_declaration (part # parts)))"
    unfolding style_part_spec
    by (cases "spec_declaration part") (simp_all add: List.map_filter_simps)
  finally show ?case .
qed

text \<open>
  What \<^verbatim>\<open>sanitizeStyle\<close> computes. It splits the value at each semicolon, reads a
  declaration out of every part that holds a colon (the property is the trimmed,
  lower-cased text before the first colon, the value the trimmed text after it), keeps
  the declarations whose property is allowed and whose value, compared as it is written,
  holds none of \<^verbatim>\<open>expression\<close>, \<^verbatim>\<open>javascript\<close> and \<^verbatim>\<open>url(\<close>, and joins the kept ones, each as
  \<^verbatim>\<open>property: value\<close>, with \<^verbatim>\<open>; \<close>. Every other part is dropped whole.
\<close>

theorem sanitizeStyle_surviving_pairs:
  "sanitizeStyle styleValue =
     join ''; '' (map spec_pair_text
       (filter spec_survives (List.map_filter spec_declaration (split_on CHR '';'' styleValue))))"
proof (cases "styleValue = []")
  case True
  have "spec_declaration [] = None"
    by (simp add: spec_declaration_def trim_def)
  with True show ?thesis
    by (simp add: sanitizeStyle_def List.map_filter_simps)
next
  case False
  then show ?thesis
    by (simp add: sanitizeStyle_def fold_style_part)
qed

text \<open>
  C4. A declaration is to survive only if its value, case-folded, holds none of
  \<^verbatim>\<open>expression\<close>, \<^verbatim>\<open>javascript\<close> and \<^verbatim>\<open>url(\<close>. The code tests the value as it is written, so
  that the upper-case forms pass the test that the comment above it calls the validation
  of the value: \<^verbatim>\<open>sanitizeStyle\<close> keeps a declaration with \<^verbatim>\<open>URL(\<close>, and \<^verbatim>\<open>sanitizeHTML\<close> returns
  a style with \<^verbatim>\<open>EXPRESSION(\<close> unchanged while it removes the same style in lower case.
\<close>

theorem sanitizeStyle_keeps_upper_case_url:
  "sanitizeStyle ''font-size: URL(x)'' = ''font-size: URL(x)'' \<and>
   str_includes (toLowerCase ''URL(x)'') ''url('' \<and>
   sanitizeStyle ''font-size: url(x)'' = [] \<and>
   sanitizeHTML (JStr (''<p style='' @ [CHR 0x22] @ ''font-size: EXPRESSION(alert(1))''
       @ [CHR 0x22] @ ''>x</p>''))
     = Inr (''<p style='' @ [CHR 0x22] @ ''font-size: EXPRESSION(alert(1))''
       @ [CHR 0x22] @ ''>x</p>'') \<and>
   sanitizeHTML (JStr (''<p style='' @ [CHR 0x22] @ ''font-size: expression(alert(1))''
       @ [CHR 0x22] @ ''>x</p>''))
     = Inr ''<p>x</p>''"
  by (simp add: sanitizeHTML.simps char_defs pattern_defs sanitizer_defs)

section \<open>The compliance scanner\<close>

lemma keyword_step_pair:
  "keyword_step text (keyword, pattern) ws =
     (if regex_test pattern text then ws @ [keyword_warning keyword] else ws)"
  by (simp add: keyword_step_def keyword_warning_def)

lemma fold_keyword_step:
  "fold (keyword_step text) rules ws =
     ws @ map (\<lambda>rule. keyword_warning (fst rule))
            (filter (\<lambda>rule. regex_test (snd rule) text) rules)"
proof (induction rules arbitrary: ws)
  case Nil
  then show ?case by simp
next
  case (Cons rule rules)
  then show ?case
    by (cases rule) (simp add: keyword_step_pair)
qed

lemma manipulative_step_pair:
  "manipulative_step text (pattern, message) ws =
     (if regex_test pattern text \<and> message \<notin> set ws then ws @ [message] else ws)"
  by (simp add: manipulative_step_def)

lemma first_occurrences_cong:
  "set a = set b \<Longrightarrow> first_occurrences a xs = first_occurrences b xs"
proof (induction xs arbitrary: a b)
  case Nil
  then show ?case by simp
next
  case (Cons x xs)
  have same: "first_occurrences a xs = first_occurrences b xs"
    using Cons.prems by (rule Cons.IH)
  have "set (x # a) = set (x # b)"
    using Cons.prems by simp
  then have "first_occurrences (x # a) xs = first_occurrences (x # b) xs"
    by (rule Cons.IH)
  with same Cons.prems show ?case
    by simp
qed

lemma first_occurrences_snoc:
  "first_occurrences (ws @ [x]) xs = first_occurrences (x # ws) xs"
  by (rule first_occurrences_cong) auto

lemma fold_manipulative_step:
  "fold (manipulative_step text) rules ws =
     ws @ first_occurrences ws (map snd (filter (\<lambda>rule. regex_test (fst rule) text) rules))"
proof (induction rules arbitrary: ws)
  case Nil
  then show ?case by simp
next
  case (Cons rule rules)
  then show ?case
    by (cases rule) (simp add: manipulative_step_pair first_occurrences_snoc)
qed

lemma first_occurrences_disjoint:
  "set seen \<inter> set xs = {} \<Longrightarrow> first_occurrences (seen @ extra) xs = first_occurrences extra xs"
proof (induction xs arbitrary: extra)
  case Nil
  then show ?case by simp
next
  case (Cons x xs)
  have swap: "first_occurrences (x # seen @ extra) xs = first_occurrences (seen @ x # extra) xs"
    by (rule first_occurrences_cong) auto
  from Cons.prems have "x \<notin> set seen" and disj: "set seen \<inter> set xs = {}"
    by auto
  then show ?case
    by (simp add: swap Cons.IH [OF disj])
qed

lemma message_not_keyword_warning:
  assumes "rule \<in> set MANIPULATIVE_PATTERNS"
  shows "hd (snd rule) \<noteq> CHR ''C''"
  using assms by (auto simp: MANIPULATIVE_PATTERNS_def)

lemma hd_keyword_warning: "hd (keyword_warning label) = CHR ''C''"
  by (simp add: keyword_warning_def)

lemma disjoint_warnings:
  "set (map (\<lambda>rule. keyword_warning (fst rule)) (filter P PROHIBITED_KEYWORDS))
     \<inter> set (map snd (filter Q MANIPULATIVE_PATTERNS)) = {}"
proof -
  have "hd w = CHR ''C''"
    if "w \<in> set (map (\<lambda>rule. keyword_warning (fst rule)) (filter P PROHIBITED_KEYWORDS))"
    for w
    using that hd_keyword_warning by auto
  moreover have "hd w \<noteq> CHR ''C''"
    if "w \<in> set (map snd (filter Q MANIPULATIVE_PATTERNS))" for w
    using that message_not_keyword_warning by auto
  ultimately show ?thesis by blast
qed

lemma warnings_checkCompliance:
  "warnings (checkCompliance shortDescription longDescription)
     = fold (manipulative_step (plainText shortDescription longDescription)) MANIPULATIVE_PATTERNS
         (fold (keyword_step (plainText shortDescription longDescription)) PROHIBITED_KEYWORDS [])"
  by (simp add: checkCompliance_def Let_def)

lemma hasIssues_checkCompliance:
  "hasIssues (checkCompliance shortDescription longDescription)
     = (warnings (checkCompliance shortDescription longDescription) \<noteq> [])"
  by (simp add: checkCompliance_def Let_def)

text \<open>
  C6, as the code has it. The text scanned is the two inputs joined by one space
  (\<^verbatim>\<open>null\<close> read as the empty text) with every tag marker replaced by one space. The
  warnings are one string \<^verbatim>\<open>Contains "label" - this language may require legal review\<close>,
  which ends without a full stop, for each keyword rule that matches this text, in the
  order of the rules, followed by the messages of the matching pattern rules in the order
  of the rules, each message once; and \<^verbatim>\<open>hasIssues\<close> holds exactly when there is a
  warning.
\<close>

theorem checkCompliance_warning_list:
  "warnings (checkCompliance shortDescription longDescription)
     = spec_warnings (plainText shortDescription longDescription) \<and>
   hasIssues (checkCompliance shortDescription longDescription)
     = (warnings (checkCompliance shortDescription longDescription) \<noteq> []) \<and>
   plainText shortDescription longDescription
     = strip (to_string (or_empty shortDescription) @ '' ''
               @ to_string (or_empty longDescription))"
proof -
  have "warnings (checkCompliance shortDescription longDescription)
          = spec_warnings (plainText shortDescription longDescription)"
    unfolding warnings_checkCompliance fold_keyword_step fold_manipulative_step spec_warnings_def
    using first_occurrences_disjoint [OF disjoint_warnings, where extra = "[]"]
    by simp
  moreover have "plainText shortDescription longDescription
     = strip (to_string (or_empty shortDescription) @ '' ''
               @ to_string (or_empty longDescription))"
    by (simp add: plainText_def combinedText_def any_tag_def strip_def tag_nodes_def lits_def
        rstar_def)
  ultimately show ?thesis
    using hasIssues_checkCompliance by simp
qed

lemma plainText_act_now: "plainText (JStr ''act'') (JStr ''now'') = ''act now''"
  by (simp add: plainText_def combinedText_def or_empty_def any_tag_def blank_def pattern_defs)

lemma warnings_act_now:
  "fold (manipulative_step ''act now'') MANIPULATIVE_PATTERNS
         (fold (keyword_step ''act now'') PROHIBITED_KEYWORDS [])
    = [''Contains '' @ [CHR 0x22] @ ''act now'' @ [CHR 0x22]
          @ '' - this language may require legal review'']"
  by (simp add: char_defs pattern_defs PROHIBITED_KEYWORDS_def MANIPULATIVE_PATTERNS_def
      word_pattern_def keyword_step_def manipulative_step_def)

lemma act_now_unmatched: "\<not> regex_test (word_pattern (lits ''act now'')) (''act'' @ ''now'')"
  by (simp add: char_defs pattern_defs word_pattern_def)

text \<open>C6 as stated fails twice on the inputs \<^verbatim>\<open>act\<close> and \<^verbatim>\<open>now\<close>: the warning has no full
  stop at its end, and the rule \<^verbatim>\<open>act now\<close> matches although the two inputs put together,
  \<^verbatim>\<open>actnow\<close>, do not hold it: the code joins them with a space.\<close>

theorem checkCompliance_message_text:
  "warnings (checkCompliance (JStr ''act'') (JStr ''now''))
     = [''Contains '' @ [CHR 0x22] @ ''act now'' @ [CHR 0x22]
          @ '' - this language may require legal review''] \<and>
   warnings (checkCompliance (JStr ''act'') (JStr ''now''))
     \<noteq> [''Contains '' @ [CHR 0x22] @ ''act now'' @ [CHR 0x22]
          @ '' - this language may require legal review.''] \<and>
   \<not> regex_test (word_pattern (lits ''act now'')) (''act'' @ ''now'')"
  using act_now_unmatched
  by (simp add: warnings_checkCompliance plainText_act_now warnings_act_now)

subsection \<open>Tag markers\<close>

lemma str_replace_any_tag: "str_replace s any_tag blank = strip s"
  by (simp add: any_tag_def strip_def tag_nodes_def lits_def rstar_def)

lemma tag_rest_found:
  "CHR ''>'' \<notin> set u \<Longrightarrow>
   match_here False [Rep (NoneOf [CChr CHR ''>'']) 0 None True, One (Lit CHR ''>'')] p
     (u @ CHR ''>'' # v) opens caps = Some (caps, v)"
  by (induction u arbitrary: p) (auto simp: class_has_def)

lemma tag_rest_missing:
  "CHR ''>'' \<notin> set t \<Longrightarrow>
   match_here False [Rep (NoneOf [CChr CHR ''>'']) 0 None True, One (Lit CHR ''>'')] p t opens caps
     = None"
  by (induction t arbitrary: p) (auto simp: class_has_def)

lemma tag_match_found:
  "CHR ''>'' \<notin> set u \<Longrightarrow>
   match_here False tag_nodes p (CHR ''<'' # u @ CHR ''>'' # v) [] [] = Some ([], v)"
  by (simp add: tag_nodes_def tag_rest_found)

lemma tag_match_missing:
  "CHR ''>'' \<notin> set t \<Longrightarrow> match_here False tag_nodes p (CHR ''<'' # t) [] [] = None"
  by (simp add: tag_nodes_def tag_rest_missing)

lemma tag_match_other:
  "c \<noteq> CHR ''<'' \<Longrightarrow> match_here False tag_nodes p (c # cs) [] [] = None"
  by (simp add: tag_nodes_def)

lemma tag_match_nil: "match_here False tag_nodes p [] [] [] = None"
  by (simp add: tag_nodes_def)

declare replace_all.simps [simp del]

lemma split_at_gt:
  "CHR ''>'' \<in> set t \<Longrightarrow> \<exists>u v. t = u @ CHR ''>'' # v \<and> CHR ''>'' \<notin> set u"
  by (meson split_list_first)

lemma last_opt_snoc: "last_opt q (u @ [c]) = Some c"
  by (induction u arbitrary: q) simp_all

lemma replace_tag_found:
  assumes "CHR ''>'' \<notin> set u"
  shows "replace_all False tag_nodes blank p (CHR ''<'' # u @ CHR ''>'' # v)
           = CHR '' '' # replace_all False tag_nodes blank (Some CHR ''>'') v"
proof -
  have "take (Suc (length u)) (u @ CHR ''>'' # v) = u @ [CHR ''>'']"
    by simp
  then show ?thesis
    by (simp add: replace_all.simps tag_match_found [OF assms] blank_def last_opt_snoc)
qed

lemma replace_tag_missing:
  "CHR ''>'' \<notin> set t \<Longrightarrow>
   replace_all False tag_nodes blank p (CHR ''<'' # t)
     = CHR ''<'' # replace_all False tag_nodes blank (Some CHR ''<'') t"
  by (simp add: replace_all.simps tag_match_missing)

lemma replace_tag_other:
  "c \<noteq> CHR ''<'' \<Longrightarrow>
   replace_all False tag_nodes blank p (c # cs) = c # replace_all False tag_nodes blank (Some c) cs"
  by (simp add: replace_all.simps tag_match_other)

lemma replace_tag_nil: "replace_all False tag_nodes blank p [] = []"
  by (simp add: replace_all.simps tag_match_nil)

lemma replace_tag_prev:
  "replace_all False tag_nodes blank p s = replace_all False tag_nodes blank q s"
proof (induction s arbitrary: p q rule: length_induct)
  case (1 s)
  show ?case
  proof (cases s)
    case Nil
    then show ?thesis by (simp add: replace_tag_nil)
  next
    case (Cons c t)
    show ?thesis
    proof (cases "c = CHR ''<''")
      case False
      then show ?thesis
        by (simp add: Cons replace_tag_other)
    next
      case lt: True
      show ?thesis
      proof (cases "CHR ''>'' \<in> set t")
        case True
        then obtain u v where "t = u @ CHR ''>'' # v" "CHR ''>'' \<notin> set u"
          using split_at_gt by blast
        then show ?thesis
          by (simp add: Cons lt replace_tag_found)
      next
        case False
        then show ?thesis
          by (simp add: Cons lt replace_tag_missing)
      qed
    qed
  qed
qed

lemma strip_nil: "strip [] = []"
  by (simp add: strip_def replace_tag_nil)

lemma strip_other: "c \<noteq> CHR ''<'' \<Longrightarrow> strip (c # cs) = c # strip cs"
  unfolding strip_def by (simp add: replace_tag_other replace_tag_prev [of "Some c" cs None])

lemma strip_found:
  "CHR ''>'' \<notin> set u \<Longrightarrow> strip (CHR ''<'' # u @ CHR ''>'' # v) = CHR '' '' # strip v"
  unfolding strip_def
  by (simp add: replace_tag_found replace_tag_prev [of "Some CHR ''>''" v None])


lemma strip_no_lt: "CHR ''<'' \<notin> set a \<Longrightarrow> strip (a @ b) = a @ strip b"
  by (induction a) (auto simp: strip_other)


subsection \<open>Searching, and the keyword patterns\<close>

lemma search_append:
  "match_here ic ns (last_opt p a) s [] [] \<noteq> None \<Longrightarrow> search ic ns p (a @ s) \<noteq> None"
proof (induction a arbitrary: p)
  case Nil
  then show ?case by (cases s) auto
next
  case (Cons c a)
  then have "search ic ns (Some c) (a @ s) \<noteq> None"
    by simp
  then show ?case
    by (auto split: option.splits)
qed






















section \<open>The disclaimer manager\<close>

declare hasDisclaimer.simps [simp del]

lemma hasDisclaimer_eval_terms:
  "hasDisclaimer (JStr ''Terms and conditions apply.'') = Inr True"
  by (simp add: hasDisclaimer.simps char_defs pattern_defs DISCLAIMER_INDICATORS_def any_tag_def
      blank_def toLowerCase_def replace_all.simps)

lemma hasDisclaimer_eval_coverage:
  "hasDisclaimer (JStr ''<p>Coverage info.</p>'') = Inr False"
  by (simp add: hasDisclaimer.simps char_defs pattern_defs DISCLAIMER_INDICATORS_def any_tag_def
      blank_def toLowerCase_def replace_all.simps)

lemma hasDisclaimer_falsy: "\<not> truthy x \<Longrightarrow> hasDisclaimer x = Inr False"
  by (simp add: hasDisclaimer.simps)

lemma hasDisclaimer_found_truthy: "hasDisclaimer x = Inr True \<Longrightarrow> truthy x"
  by (auto simp: hasDisclaimer.simps split: if_splits)

lemma hasDisclaimer_text: "is_text x \<Longrightarrow> \<exists>found. hasDisclaimer x = Inr found"
  by (cases x) (auto simp: hasDisclaimer.simps)

lemma ensureDisclaimer_falsy: "\<not> truthy x \<Longrightarrow> ensureDisclaimer x = Inr disclaimerHTML"
  by (simp add: ensureDisclaimer_def)

lemma ensureDisclaimer_kept:
  "hasDisclaimer x = Inr True \<Longrightarrow> ensureDisclaimer x = Inr (to_string x)"
  using hasDisclaimer_found_truthy [of x] by (simp add: ensureDisclaimer_def)

lemma ensureDisclaimer_added:
  "truthy x \<Longrightarrow> hasDisclaimer x = Inr False \<Longrightarrow>
   ensureDisclaimer x = Inr (to_string x @ ''\<newline>\<newline>'' @ disclaimerHTML)"
  by (simp add: ensureDisclaimer_def)

text \<open>A value that is neither a string nor \<^verbatim>\<open>null\<close> nor \<^verbatim>\<open>undefined\<close> can make both
  functions raise.\<close>

lemma hasDisclaimer_boolean_raises:
  "hasDisclaimer (JBool True) = Inl TypeError" "ensureDisclaimer (JBool True) = Inl TypeError"
  by (simp_all add: hasDisclaimer.simps ensureDisclaimer_def)

text \<open>
  C8. \<^verbatim>\<open>ensureDisclaimer\<close> returns the wrapped standard disclaimer, a paragraph holding an
  \<^verbatim>\<open>em\<close> element with the style \<^verbatim>\<open>font-size: smaller\<close>, for \<^verbatim>\<open>null\<close>, \<^verbatim>\<open>undefined\<close> and
  the empty text; its input unchanged when \<^verbatim>\<open>hasDisclaimer\<close> holds of it; and otherwise
  its input as it is, then an empty line, then the same wrapped disclaimer.
\<close>

theorem ensureDisclaimer_cases:
  "ensureDisclaimer JNull = Inr disclaimerHTML \<and>
   ensureDisclaimer JUndefined = Inr disclaimerHTML \<and>
   ensureDisclaimer (JStr []) = Inr disclaimerHTML \<and>
   disclaimerHTML = ''<p><em style='' @ [CHR 0x22] @ ''font-size: smaller'' @ [CHR 0x22] @ ''>''
       @ STANDARD_DISCLAIMER @ ''</em></p>'' \<and>
   (hasDisclaimer (JStr s) = Inr True \<longrightarrow> ensureDisclaimer (JStr s) = Inr s) \<and>
   (t \<noteq> [] \<and> hasDisclaimer (JStr t) = Inr False \<longrightarrow>
      ensureDisclaimer (JStr t) = Inr (t @ ''\<newline>\<newline>'' @ disclaimerHTML))"
proof -
  have kept: "ensureDisclaimer (JStr s) = Inr s" if "hasDisclaimer (JStr s) = Inr True"
    using ensureDisclaimer_kept [OF that] by simp
  have added: "ensureDisclaimer (JStr t) = Inr (t @ ''\<newline>\<newline>'' @ disclaimerHTML)"
    if "t \<noteq> []" "hasDisclaimer (JStr t) = Inr False"
    using ensureDisclaimer_added [of "JStr t"] that by simp
  show ?thesis
    using kept added by (simp add: ensureDisclaimer_falsy disclaimerHTML_def)
qed

theorem ensureDisclaimer_cases_witness:
  "hasDisclaimer (JStr ''Terms and conditions apply.'') = Inr True \<and>
   ensureDisclaimer (JStr ''Terms and conditions apply.'') = Inr ''Terms and conditions apply.'' \<and>
   hasDisclaimer (JStr ''<p>Coverage info.</p>'') = Inr False \<and>
   ensureDisclaimer (JStr ''<p>Coverage info.</p>'')
     = Inr (''<p>Coverage info.</p>'' @ ''\<newline>\<newline>'' @ disclaimerHTML)"
  using ensureDisclaimer_cases [of "''Terms and conditions apply.''" "''<p>Coverage info.</p>''"]
    hasDisclaimer_eval_terms hasDisclaimer_eval_coverage
  by simp

lemma hasDisclaimer_str:
  "s \<noteq> [] \<Longrightarrow>
   hasDisclaimer (JStr s)
     = Inr (list_ex (\<lambda>pattern. regex_test pattern (toLowerCase (strip s))) DISCLAIMER_INDICATORS)"
  by (simp add: hasDisclaimer.simps str_replace_any_tag)

lemma strip_resync: "\<exists>u. strip (x @ CHR ''>'' # r) = u @ strip r"
proof (induction x rule: length_induct)
  case (1 x)
  show ?case
  proof (cases x)
    case Nil
    then show ?thesis by (simp add: strip_other)
  next
    case (Cons c cs)
    show ?thesis
    proof (cases "c = CHR ''<''")
      case False
      have "length cs < length x"
        using Cons by simp
      with 1 obtain u where "strip (cs @ CHR ''>'' # r) = u @ strip r"
        by blast
      with False show ?thesis
        by (simp add: Cons strip_other)
    next
      case lt: True
      show ?thesis
      proof (cases "CHR ''>'' \<in> set cs")
        case True
        then obtain a b where cs: "cs = a @ CHR ''>'' # b" "CHR ''>'' \<notin> set a"
          using split_at_gt by blast
        have "length b < length x"
          using Cons cs by simp
        with 1 obtain u where "strip (b @ CHR ''>'' # r) = u @ strip r"
          by blast
        with cs show ?thesis
          by (simp add: Cons lt strip_found)
      next
        case False
        then show ?thesis
          by (simp add: Cons lt strip_found)
      qed
    qed
  qed
qed

lemma match_limitations:
  "match_here True (lits ''limitations and exclusions'') q (''limitations and exclusions'' @ r) [] []
     = Some ([], r)"
  by (simp add: lits_def char_defs)

lemma disclaimer_parts:
  "STANDARD_DISCLAIMER = ''This coverage has '' @ ''limitations and exclusions'' @ ''. Please review the full contract terms for complete details on covered components, service requirements, and exclusions.''"
  by (simp add: STANDARD_DISCLAIMER_def)

lemma lower_limitations:
  "toLowerCase ''limitations and exclusions'' = ''limitations and exclusions''"
  by (simp add: toLowerCase_def char_defs)

lemma no_angle_in_disclaimer:
  "CHR ''<'' \<notin> set STANDARD_DISCLAIMER" "CHR ''>'' \<notin> set STANDARD_DISCLAIMER"
  by (simp_all add: STANDARD_DISCLAIMER_def)

lemma strip_disclaimer_tail:
  "strip (''<em style='' @ [CHR 0x22] @ ''font-size: smaller'' @ [CHR 0x22] @ ''>''
       @ STANDARD_DISCLAIMER @ ''</em></p>'') = '' '' @ STANDARD_DISCLAIMER @ ''  ''"
proof -
  have close: "strip ''</em></p>'' = ''  ''"
    using strip_found [of "''/em''" "''</p>''"] strip_found [of "''/p''" "[]"]
    by (simp add: strip_nil)
  have "strip (CHR ''<'' # (''em style='' @ [CHR 0x22] @ ''font-size: smaller'' @ [CHR 0x22])
          @ CHR ''>'' # (STANDARD_DISCLAIMER @ ''</em></p>''))
        = CHR '' '' # strip (STANDARD_DISCLAIMER @ ''</em></p>'')"
    by (rule strip_found) simp
  then show ?thesis
    by (simp add: strip_no_lt no_angle_in_disclaimer close)
qed

lemma hasDisclaimer_appended: "hasDisclaimer (JStr (x @ disclaimerHTML)) = Inr True"
proof -
  define tail where "tail = ''<em style='' @ [CHR 0x22] @ ''font-size: smaller''
          @ [CHR 0x22] @ ''>'' @ STANDARD_DISCLAIMER @ ''</em></p>''"
  have whole: "x @ disclaimerHTML = (x @ ''<p'') @ CHR ''>'' # tail"
    by (simp add: disclaimerHTML_def tail_def)
  obtain u where "strip ((x @ ''<p'') @ CHR ''>'' # tail) = u @ strip tail"
    using strip_resync by blast
  moreover have "strip tail = '' '' @ STANDARD_DISCLAIMER @ ''  ''"
    unfolding tail_def by (rule strip_disclaimer_tail)
  ultimately have stripped: "strip (x @ disclaimerHTML) = u @ '' '' @ STANDARD_DISCLAIMER @ ''  ''"
    by (simp only: whole)
  have "toLowerCase (strip (x @ disclaimerHTML))
      = toLowerCase (u @ '' This coverage has '') @ toLowerCase ''limitations and exclusions''
          @ toLowerCase ''. Please review the full contract terms for complete details on covered components, service requirements, and exclusions.  ''"
    unfolding stripped disclaimer_parts toLowerCase_def by simp
  then have plain: "toLowerCase (strip (x @ disclaimerHTML))
      = toLowerCase (u @ '' This coverage has '') @ ''limitations and exclusions''
          @ toLowerCase ''. Please review the full contract terms for complete details on covered components, service requirements, and exclusions.  ''"
    by (simp only: lower_limitations)
  have "search True (lits ''limitations and exclusions'') None
          (toLowerCase (strip (x @ disclaimerHTML))) \<noteq> None"
    unfolding plain by (rule search_append) (simp only: match_limitations, simp)
  then have "regex_test (RegExp (lits ''limitations and exclusions'') True False)
          (toLowerCase (strip (x @ disclaimerHTML)))"
    by simp
  moreover have "x @ disclaimerHTML \<noteq> []"
    by (simp add: disclaimerHTML_def)
  ultimately show ?thesis
    by (simp add: hasDisclaimer_str DISCLAIMER_INDICATORS_def del: regex_test.simps)
qed

lemma ensureDisclaimer_found:
  assumes "is_text x"
  shows "\<exists>y. ensureDisclaimer x = Inr y \<and> y \<noteq> [] \<and> hasDisclaimer (JStr y) = Inr True"
proof (cases "truthy x")
  case False
  have "disclaimerHTML \<noteq> []"
    by (simp add: disclaimerHTML_def)
  with False show ?thesis
    using hasDisclaimer_appended [of "[]"] by (simp add: ensureDisclaimer_falsy)
next
  case True
  with assms obtain s where x: "x = JStr s" "s \<noteq> []"
    by (cases x) auto
  obtain found where found: "hasDisclaimer (JStr s) = Inr found"
    using hasDisclaimer_text [of "JStr s"] by auto
  show ?thesis
  proof (cases found)
    case True
    with found x show ?thesis
      by (simp add: ensureDisclaimer_kept)
  next
    case False
    with found x hasDisclaimer_appended [of "s @ ''\<newline>\<newline>''"] show ?thesis
      by (simp add: ensureDisclaimer_added)
  qed
qed

text \<open>
  C10. For every input that is a string, \<^verbatim>\<open>null\<close> or \<^verbatim>\<open>undefined\<close>, \<^verbatim>\<open>ensureDisclaimer\<close>
  returns a text of which \<^verbatim>\<open>hasDisclaimer\<close> holds: the text of the standard disclaimer
  lies outside every tag marker, whatever comes before it, and holds the first indicator.
\<close>

theorem ensureDisclaimer_has_disclaimer:
  assumes "is_text x"
  shows "\<exists>y. ensureDisclaimer x = Inr y \<and> hasDisclaimer (JStr y) = Inr True"
  using ensureDisclaimer_found [OF assms] by blast

theorem ensureDisclaimer_has_disclaimer_witness:
  "\<exists>y. ensureDisclaimer (JStr ''<p>Coverage info.</p>'') = Inr y \<and> hasDisclaimer (JStr y) = Inr True"
  using ensureDisclaimer_has_disclaimer [of "JStr ''<p>Coverage info.</p>''"] by simp

lemma startsWith_separator:
  "c \<notin> set phrase \<Longrightarrow> startsWith (a @ c # b) phrase = startsWith a phrase"
proof (induction a arbitrary: phrase)
  case Nil
  then show ?case by (cases phrase) auto
next
  case (Cons x a)
  then show ?case by (cases phrase) auto
qed

lemma occurrences_separator:
  assumes "c \<notin> set phrase" and "phrase \<noteq> []"
  shows "occurrences phrase (a @ c # b) = occurrences phrase a + occurrences phrase b"
proof (induction a)
  case Nil
  have "\<not> startsWith (c # b) phrase"
    using assms by (cases phrase) auto
  with assms(2) show ?case by simp
next
  case (Cons x a)
  have "startsWith ((x # a) @ c # b) phrase = startsWith (x # a) phrase"
    using assms(1) by (rule startsWith_separator)
  with Cons show ?case by simp
qed

lemma occurrences_appended:
  assumes "CHR 0x0A \<notin> set phrase" and "phrase \<noteq> []"
  shows "occurrences phrase (s @ ''\<newline>\<newline>'' @ disclaimerHTML)
           = occurrences phrase s + occurrences phrase disclaimerHTML"
proof -
  have "occurrences phrase (s @ CHR 0x0A # ([] @ CHR 0x0A # disclaimerHTML))
          = occurrences phrase s + occurrences phrase ([] @ CHR 0x0A # disclaimerHTML)"
    using assms by (rule occurrences_separator)
  also have "occurrences phrase ([] @ CHR 0x0A # disclaimerHTML)
          = occurrences phrase [] + occurrences phrase disclaimerHTML"
    using assms by (rule occurrences_separator)
  finally show ?thesis
    using assms(2) by simp
qed

lemma occurrences_in_disclaimerHTML:
  "occurrences ''limitations and exclusions'' disclaimerHTML = 1"
  by (simp add: disclaimerHTML_def STANDARD_DISCLAIMER_def)

lemma occurrences_eval:
  "occurrences ''limitations and exclusions'' ''<p>Coverage info.</p>'' = 0"
  "occurrences ''limitations and exclusions'' ''Terms and conditions apply.'' = 0"
  "occurrences STANDARD_DISCLAIMER ''Terms and conditions apply.'' = 0"
  by (simp_all add: STANDARD_DISCLAIMER_def)

text \<open>
  C9, as the code has it. For every input that is a string, \<^verbatim>\<open>null\<close> or \<^verbatim>\<open>undefined\<close>, a
  second \<^verbatim>\<open>ensureDisclaimer\<close> returns what the first returned. That text holds a phrase
  of the standard disclaimer (one that is not empty, holds no line feed and occurs once
  in the wrapped disclaimer) exactly once when the input is \<^verbatim>\<open>null\<close> or empty, and once
  more than the input does when \<^verbatim>\<open>hasDisclaimer\<close> does not hold of the input; when
  \<^verbatim>\<open>hasDisclaimer\<close> holds of the input it is the input, with the occurrences the input
  has.
\<close>

theorem ensureDisclaimer_twice:
  assumes "is_text x" and "ensureDisclaimer x = Inr y"
    and "phrase \<noteq> []" and "CHR 0x0A \<notin> set phrase"
    and "occurrences phrase disclaimerHTML = 1"
  shows "ensureDisclaimer (JStr y) = Inr y \<and>
         (\<not> truthy x \<longrightarrow> occurrences phrase y = 1) \<and>
         (truthy x \<and> hasDisclaimer x = Inr False \<longrightarrow>
            occurrences phrase y = occurrences phrase (to_string x) + 1) \<and>
         (hasDisclaimer x = Inr True \<longrightarrow> y = to_string x)"
proof -
  from ensureDisclaimer_found [OF assms(1)] assms(2)
  have "y \<noteq> []" and "hasDisclaimer (JStr y) = Inr True"
    by auto
  then have again: "ensureDisclaimer (JStr y) = Inr y"
    using ensureDisclaimer_kept [of "JStr y"] by simp
  have empty: "occurrences phrase y = 1" if "\<not> truthy x"
    using that assms(2,5) by (simp add: ensureDisclaimer_falsy)
  have added: "occurrences phrase y = occurrences phrase (to_string x) + 1"
    if "truthy x" "hasDisclaimer x = Inr False"
    using ensureDisclaimer_added [OF that] assms(2,5) occurrences_appended [OF assms(4,3)]
    by simp
  have kept: "y = to_string x" if "hasDisclaimer x = Inr True"
    using ensureDisclaimer_kept [OF that] assms(2) by simp
  from again empty added kept show ?thesis
    by blast
qed

theorem ensureDisclaimer_twice_witness:
  "ensureDisclaimer (JStr ''<p>Coverage info.</p>'')
     = Inr (''<p>Coverage info.</p>'' @ ''\<newline>\<newline>'' @ disclaimerHTML) \<and>
   ensureDisclaimer (JStr (''<p>Coverage info.</p>'' @ ''\<newline>\<newline>'' @ disclaimerHTML))
     = Inr (''<p>Coverage info.</p>'' @ ''\<newline>\<newline>'' @ disclaimerHTML) \<and>
   occurrences ''limitations and exclusions''
     (''<p>Coverage info.</p>'' @ ''\<newline>\<newline>'' @ disclaimerHTML) = 1"
proof -
  have first: "ensureDisclaimer (JStr ''<p>Coverage info.</p>'')
     = Inr (''<p>Coverage info.</p>'' @ ''\<newline>\<newline>'' @ disclaimerHTML)"
    using ensureDisclaimer_added [of "JStr ''<p>Coverage info.</p>''"] hasDisclaimer_eval_coverage
    by simp
  have "is_text (JStr ''<p>Coverage info.</p>'')"
    and "''limitations and exclusions'' \<noteq> []"
    and "CHR 0x0A \<notin> set ''limitations and exclusions''"
    and "truthy (JStr ''<p>Coverage info.</p>'')"
    by simp_all
  from ensureDisclaimer_twice [OF this(1) first this(2,3) occurrences_in_disclaimerHTML] this(4)
    hasDisclaimer_eval_coverage occurrences_eval(1) first
  show ?thesis
    by simp
qed

text \<open>C9 as stated fails: an input with another indicator is returned as it is, and
  holds neither the standard disclaimer nor its phrase.\<close>

theorem ensureDisclaimer_twice_without_phrase:
  "ensureDisclaimer (JStr ''Terms and conditions apply.'') = Inr ''Terms and conditions apply.'' \<and>
   occurrences ''limitations and exclusions'' ''Terms and conditions apply.'' = 0 \<and>
   occurrences STANDARD_DISCLAIMER ''Terms and conditions apply.'' = 0"
  using ensureDisclaimer_kept [OF hasDisclaimer_eval_terms] occurrences_eval
  by simp

section \<open>Errors\<close>

lemma sanitizeHTML_not_string: "typeof v \<noteq> ''string'' \<Longrightarrow> sanitizeHTML v = Inr []"
  by (simp add: sanitizeHTML.simps)

lemma sanitizeHTML_returns: "\<exists>html. sanitizeHTML v = Inr html"
  by (cases v) (simp_all add: sanitizeHTML.simps)

lemma combinedText_falsy:
  "\<not> truthy x \<Longrightarrow> combinedText x y = combinedText (JStr []) y"
  "\<not> truthy x \<Longrightarrow> combinedText y x = combinedText y (JStr [])"
  by (simp_all add: combinedText_def or_empty_def)

lemma checkCompliance_falsy:
  "\<not> truthy x \<Longrightarrow> checkCompliance x y = checkCompliance (JStr []) y"
  "\<not> truthy x \<Longrightarrow> checkCompliance y x = checkCompliance y (JStr [])"
  by (simp_all add: checkCompliance_def plainText_def combinedText_falsy [of x y])

text \<open>
  C5. On a string, \<^verbatim>\<open>null\<close> or \<^verbatim>\<open>undefined\<close> none of the four functions raises.
  \<^verbatim>\<open>sanitizeHTML\<close> returns on every value, the empty text on \<^verbatim>\<open>null\<close> and on whatever is not
  a string; \<^verbatim>\<open>hasDisclaimer\<close> and \<^verbatim>\<open>ensureDisclaimer\<close> return; \<^verbatim>\<open>checkCompliance\<close> holds no
  operation that raises, so that its model has no error to return; and the three of them
  treat \<^verbatim>\<open>null\<close> and \<^verbatim>\<open>undefined\<close> as the empty text.
\<close>

theorem never_raise_on_text:
  assumes "is_text x"
  shows "(\<exists>html. sanitizeHTML v = Inr html) \<and>
         (typeof v \<noteq> ''string'' \<longrightarrow> sanitizeHTML v = Inr []) \<and>
         sanitizeHTML (JStr []) = Inr [] \<and>
         (\<exists>found. hasDisclaimer x = Inr found) \<and>
         (\<exists>html. ensureDisclaimer x = Inr html) \<and>
         (\<not> truthy x \<longrightarrow>
            hasDisclaimer x = hasDisclaimer (JStr []) \<and>
            ensureDisclaimer x = ensureDisclaimer (JStr []) \<and>
            checkCompliance x y = checkCompliance (JStr []) y \<and>
            checkCompliance y x = checkCompliance y (JStr []))"
proof -
  obtain found where found: "hasDisclaimer x = Inr found"
    using hasDisclaimer_text [OF assms] by blast
  have "\<exists>html. ensureDisclaimer x = Inr html"
    by (simp add: ensureDisclaimer_def found)
  moreover have "sanitizeHTML (JStr []) = Inr []"
    by (simp add: sanitizeHTML.simps)
  moreover have "hasDisclaimer x = hasDisclaimer (JStr [])"
    "ensureDisclaimer x = ensureDisclaimer (JStr [])" if "\<not> truthy x"
    using that by (simp_all add: hasDisclaimer_falsy ensureDisclaimer_falsy)
  ultimately show ?thesis
    using found sanitizeHTML_returns [of v] sanitizeHTML_not_string [of v]
      checkCompliance_falsy [of x y]
    by simp
qed

theorem never_raise_on_text_witness:
  "sanitizeHTML (JBool True) = Inr [] \<and>
   sanitizeHTML (JStr []) = Inr [] \<and>
   (\<exists>found. hasDisclaimer JNull = Inr found) \<and>
   (\<exists>html. ensureDisclaimer JNull = Inr html) \<and>
   hasDisclaimer JNull = hasDisclaimer (JStr []) \<and>
   ensureDisclaimer JNull = ensureDisclaimer (JStr []) \<and>
   checkCompliance JNull (JStr ''best'') = checkCompliance (JStr []) (JStr ''best'') \<and>
   checkCompliance (JStr ''best'') JNull = checkCompliance (JStr ''best'') (JStr [])"
  using never_raise_on_text [of JNull "JBool True" "JStr ''best''"]
  by auto



end
